theory Spec2Isabelle
  imports Main "HOL-Library.Multiset"
begin

section \<open>Text\<close>

text \<open>
  A Python \<open>str\<close> is a sequence of Unicode code points; the notebook's separator is the
  en dash U+2013, which is one code point and not an ASCII character. Text is therefore a
  list of code points. \<open>codepoints\<close> turns an ASCII literal into such a list.
\<close>

type_synonym pystr = "nat list"

definition codepoints :: "string \<Rightarrow> pystr" where
  "codepoints s = map of_char s"

definition en_dash :: nat where
  "en_dash = 8211"

text \<open>The characters \<open>str.strip()\<close> removes: those for which \<open>str.isspace\<close> holds.\<close>

definition is_space :: "nat \<Rightarrow> bool" where
  "is_space c =
     ((9 \<le> c \<and> c \<le> 13) \<or> (28 \<le> c \<and> c \<le> 32) \<or> c = 133 \<or> c = 160 \<or> c = 5760
      \<or> (8192 \<le> c \<and> c \<le> 8202) \<or> c = 8232 \<or> c = 8233 \<or> c = 8239 \<or> c = 8287
      \<or> c = 12288)"

definition strip :: "pystr \<Rightarrow> pystr" where
  "strip s = rev (dropWhile is_space (rev (dropWhile is_space s)))"

text \<open>\<open>s.split(sep)\<close> for a separator of one code point; the result is never empty.\<close>

fun split_on :: "nat \<Rightarrow> pystr \<Rightarrow> pystr list" where
  "split_on sep [] = [[]]"
| "split_on sep (c # cs) =
     (if c = sep then [] # split_on sep cs
      else (case split_on sep cs of p # ps \<Rightarrow> (c # p) # ps | [] \<Rightarrow> [[c]]))"

definition startswith :: "pystr \<Rightarrow> pystr \<Rightarrow> bool" where
  "startswith s p = (take (length p) s = p)"

text \<open>\<open>sep.join(xs)\<close>.\<close>

fun join :: "pystr \<Rightarrow> pystr list \<Rightarrow> pystr" where
  "join sep [] = []"
| "join sep [x] = x"
| "join sep (x # y # ys) = x @ sep @ join sep (y # ys)"

section \<open>Preparation of the dataset\<close>

text \<open>
  \<open>df = df[(df["text"].str.len() > 0) & (~df["text"].str.startswith("=="))]\<close>:
  empty lines and section lines are removed.
\<close>

definition clean_lines :: "pystr list \<Rightarrow> pystr list" where
  "clean_lines lines =
     filter (\<lambda>t. length t > 0 \<and> \<not> startswith t (codepoints ''=='')) lines"

text \<open>
  \<open>is_date\<close>. The date parser \<open>dateutil.parser.parse\<close> is a library outside the
  notebook; \<open>parse s\<close> says whether that call returns (\<open>True\<close>) or raises (\<open>False\<close>).
  The bare \<open>except\<close> turns every raise into \<open>(False, None)\<close>.
\<close>

definition is_date :: "(pystr \<Rightarrow> bool) \<Rightarrow> pystr \<Rightarrow> bool \<times> pystr option" where
  "is_date parse string =
     (let possible_date_string = strip (hd (split_on en_dash string))
      in if parse possible_date_string then (True, Some possible_date_string)
         else (False, None))"

text \<open>The separator string of the source: a space, the en dash, a space.\<close>

definition date_sep :: pystr where
  "date_sep = [32, en_dash, 32]"

text \<open>
  The loop over \<open>df.iterrows()\<close>, with \<open>current_date\<close> as the state passed along. The
  assignment goes to \<open>row\<close>, the Series that \<open>iterrows\<close> yields, not to \<open>df\<close>. Whether it
  reaches the frame is decided by pandas: it does for a frame of one dtype without
  copy-on-write, pandas documents it as not guaranteed, and under copy-on-write it never
  does. \<open>write_back\<close> is that answer. The result is the column \<open>text\<close> of \<open>df\<close> after the
  loop.
\<close>

fun carry_forward ::
  "(pystr \<Rightarrow> bool) \<Rightarrow> bool \<Rightarrow> pystr option \<Rightarrow> pystr list \<Rightarrow> pystr list" where
  "carry_forward parse write_back current_date [] = []"
| "carry_forward parse write_back current_date (text # rows) =
     (let (is_a_date, date) = is_date parse text;
          current_date = (if is_a_date then date else current_date);
          row_text = (case current_date of
                        Some d \<Rightarrow> (if \<not> is_a_date then d @ date_sep @ text else text)
                      | None \<Rightarrow> text)
      in (if write_back then row_text else text)
         # carry_forward parse write_back current_date rows)"

text \<open>\<open>df = df[df["text"].str.contains(dash)]\<close>, the pattern being the en dash.\<close>

definition keep_dated :: "pystr list \<Rightarrow> pystr list" where
  "keep_dated rows = filter (\<lambda>t. en_dash \<in> set t) rows"

text \<open>The three cells in sequence, from the raw lines of the page to the rows kept.\<close>

definition preprocess :: "(pystr \<Rightarrow> bool) \<Rightarrow> bool \<Rightarrow> pystr list \<Rightarrow> pystr list" where
  "preprocess parse write_back lines =
     keep_dated (carry_forward parse write_back None (clean_lines lines))"

section \<open>Query and augmentation\<close>

text \<open>
  What a call can raise. \<open>Exception m\<close> is an instance of Python's \<open>Exception\<close> whose
  \<open>str\<close> is \<open>m\<close>; \<open>Interrupt m\<close> is a \<open>BaseException\<close> outside \<open>Exception\<close>
  (\<open>KeyboardInterrupt\<close>, \<open>SystemExit\<close>), which \<open>except Exception\<close> does not catch.
\<close>

datatype py_exc = Exception pystr | Interrupt pystr

text \<open>
  A row of the frame read back from \<open>embeddings.csv\<close>: the columns \<open>text\<close> and
  \<open>embeddings\<close>. The type \<open>'f\<close> stands for the floating-point numbers of numpy; nothing
  is assumed about it.
\<close>

record 'f row =
  row_text :: pystr
  row_embeddings :: "'f list"

text \<open>
  The libraries and services the notebook calls: the tokenizer of tiktoken, the embedding
  and completion endpoints of the OpenAI client, the four distance functions of
  \<open>scipy.spatial.distance\<close>, and \<open>DataFrame.sort_values("distances", ascending=True)\<close> of
  pandas on rows paired with their distance. None of them is code of the notebook, so each
  is a parameter. The tokenizer is taken to encode every text; the two endpoints and the
  distance functions may raise.
\<close>

record 'f services =
  encode :: "pystr \<Rightarrow> nat list"
  embeddings_create :: "pystr list \<Rightarrow> pystr \<Rightarrow> py_exc + 'f list list"
  completions_create :: "pystr \<Rightarrow> pystr \<Rightarrow> int \<Rightarrow> py_exc + pystr list"
  cosine :: "'f list \<Rightarrow> 'f list \<Rightarrow> py_exc + 'f"
  cityblock :: "'f list \<Rightarrow> 'f list \<Rightarrow> py_exc + 'f"
  euclidean :: "'f list \<Rightarrow> 'f list \<Rightarrow> py_exc + 'f"
  chebyshev :: "'f list \<Rightarrow> 'f list \<Rightarrow> py_exc + 'f"
  sort_values :: "('f row \<times> 'f) list \<Rightarrow> ('f row \<times> 'f) list"

definition COMPLETION_MODEL_NAME :: pystr where
  "COMPLETION_MODEL_NAME = codepoints ''gpt-3.5-turbo-instruct''"

definition EMBEDDING_MODEL_NAME :: pystr where
  "EMBEDDING_MODEL_NAME = codepoints ''text-embedding-ada-002''"

definition index_error :: py_exc where
  "index_error = Exception (codepoints ''list index out of range'')"

text \<open>\<open>KeyError(key)\<close>; its \<open>str\<close> is the key between apostrophes (for a plain key).\<close>

definition key_error :: "pystr \<Rightarrow> py_exc" where
  "key_error key = Exception (39 # key @ [39])"

text \<open>\<open>get_embedding\<close>: newlines become spaces, then \<open>.data[0].embedding\<close> of the reply.\<close>

definition get_embedding :: "'f services \<Rightarrow> pystr \<Rightarrow> pystr \<Rightarrow> py_exc + 'f list" where
  "get_embedding svc text model_name =
     (let text = map (\<lambda>c. if c = 10 then 32 else c) text
      in case embeddings_create svc [text] model_name of
           Inl e \<Rightarrow> Inl e
         | Inr data \<Rightarrow> (case data of [] \<Rightarrow> Inl index_error | v # _ \<Rightarrow> Inr v))"

text \<open>A list comprehension over a function that may raise: the first raise ends it.\<close>

fun comprehension :: "('a \<Rightarrow> py_exc + 'b) \<Rightarrow> 'a list \<Rightarrow> py_exc + 'b list" where
  "comprehension f [] = Inr []"
| "comprehension f (x # xs) =
     (case f x of
        Inl e \<Rightarrow> Inl e
      | Inr y \<Rightarrow> (case comprehension f xs of Inl e \<Rightarrow> Inl e | Inr ys \<Rightarrow> Inr (y # ys)))"

definition distance_metrics ::
  "'f services \<Rightarrow> pystr \<rightharpoonup> ('f list \<Rightarrow> 'f list \<Rightarrow> py_exc + 'f)" where
  "distance_metrics svc =
     map_of [(codepoints ''cosine'', cosine svc), (codepoints ''L1'', cityblock svc),
             (codepoints ''L2'', euclidean svc), (codepoints ''inf'', chebyshev svc)]"

text \<open>
  \<open>distances_from_embeddings\<close>. The metric is looked up inside the comprehension, once for
  every embedding, so an unknown name raises \<open>KeyError\<close> only when there is an embedding;
  the metric itself may raise too, as scipy does for vectors of different lengths.
\<close>

definition distances_from_embeddings ::
  "'f services \<Rightarrow> 'f list \<Rightarrow> 'f list list \<Rightarrow> pystr \<Rightarrow> py_exc + 'f list" where
  "distances_from_embeddings svc query_embedding embeddings distance_metric =
     comprehension
       (\<lambda>embedding. case distance_metrics svc distance_metric of
                       None \<Rightarrow> Inl (key_error distance_metric)
                     | Some metric \<Rightarrow> metric query_embedding embedding)
       embeddings"

text \<open>
  \<open>get_rows_by_relevance\<close>: the rows of the copy with their new column \<open>distances\<close>, in the
  order \<open>sort_values\<close> leaves them.
\<close>

definition get_rows_by_relevance ::
  "'f services \<Rightarrow> pystr \<Rightarrow> 'f row list \<Rightarrow> py_exc + ('f row \<times> 'f) list" where
  "get_rows_by_relevance svc question df =
     (case get_embedding svc question EMBEDDING_MODEL_NAME of
        Inl e \<Rightarrow> Inl e
      | Inr q_embedding \<Rightarrow>
          (case distances_from_embeddings svc q_embedding (map row_embeddings df)
                  (codepoints ''cosine'') of
             Inl e \<Rightarrow> Inl e
           | Inr distances \<Rightarrow> Inr (sort_values svc (zip df distances))))"

subsection \<open>The prompt\<close>

text \<open>
  The template of \<open>create_prompt\<close>, cut at its two \<open>{}\<close> slots. Code point 10 is the
  newline, 34 the double quote, 39 the apostrophe.
\<close>

definition template_head :: pystr where
  "template_head =
     10 # codepoints ''Answer the question based on the context below, and if the question''
     @ 10 # codepoints ''can'' @ 39 # codepoints ''t be answered based on the context, say ''
     @ 34 # codepoints ''I don'' @ 39 # codepoints ''t know'' @ [34, 10, 10]
     @ codepoints ''Context: '' @ [10, 10]"

definition template_mid :: pystr where
  "template_mid = [10, 10] @ codepoints ''---'' @ [10, 10] @ codepoints ''Question: ''"

definition template_tail :: pystr where
  "template_tail = 10 # codepoints ''Answer:''"

definition prompt_template :: pystr where
  "prompt_template =
     template_head @ codepoints ''{}'' @ template_mid @ codepoints ''{}'' @ template_tail"

text \<open>\<open>prompt_template.format(context, question)\<close>.\<close>

definition format_prompt :: "pystr \<Rightarrow> pystr \<Rightarrow> pystr" where
  "format_prompt context question =
     template_head @ context @ template_mid @ question @ template_tail"

definition context_separator :: pystr where
  "context_separator = [10, 10] @ codepoints ''###'' @ [10, 10]"

text \<open>\<open>len(tokenizer.encode(text))\<close>.\<close>

definition count_tokens :: "'f services \<Rightarrow> pystr \<Rightarrow> nat" where
  "count_tokens svc text = length (encode svc text)"

text \<open>
  The \<open>for\<close> loop of \<open>create_prompt\<close>, with \<open>current_token_count\<close> and \<open>context\<close> as its
  state; \<open>break\<close> returns the context gathered so far. \<open>max_token_count\<close> is a Python
  \<open>int\<close> and may be negative.
\<close>

fun context_loop :: "'f services \<Rightarrow> int \<Rightarrow> nat \<Rightarrow> pystr list \<Rightarrow> pystr list \<Rightarrow> pystr list" where
  "context_loop svc max_token_count current_token_count context [] = context"
| "context_loop svc max_token_count current_token_count context (text # texts) =
     (let current_token_count = current_token_count + count_tokens svc text
      in if int current_token_count < max_token_count
         then context_loop svc max_token_count current_token_count (context @ [text]) texts
         else context)"

text \<open>\<open>get_rows_by_relevance(question, df)["text"].values\<close>: the texts of the ranked rows.\<close>

definition text_values :: "('f row \<times> 'f) list \<Rightarrow> pystr list" where
  "text_values rows = map (\<lambda>r. row_text (fst r)) rows"

text \<open>
  The list \<open>context\<close> as \<open>create_prompt\<close> holds it after its loop, or what
  \<open>get_rows_by_relevance\<close> raised.
\<close>

definition create_prompt_context ::
  "'f services \<Rightarrow> pystr \<Rightarrow> 'f row list \<Rightarrow> int \<Rightarrow> py_exc + pystr list" where
  "create_prompt_context svc question df max_token_count =
     (let current_token_count = count_tokens svc prompt_template + count_tokens svc question
      in case get_rows_by_relevance svc question df of
           Inl e \<Rightarrow> Inl e
         | Inr rows \<Rightarrow>
             Inr (context_loop svc max_token_count current_token_count [] (text_values rows)))"

definition create_prompt ::
  "'f services \<Rightarrow> pystr \<Rightarrow> 'f row list \<Rightarrow> int \<Rightarrow> py_exc + pystr" where
  "create_prompt svc question df max_token_count =
     (case create_prompt_context svc question df max_token_count of
        Inl e \<Rightarrow> Inl e
      | Inr context \<Rightarrow> Inr (format_prompt (join context_separator context) question))"

subsection \<open>Answering\<close>

text \<open>The body of the \<open>try\<close>: the completion call, then \<open>response.choices[0].text\<close>.\<close>

definition try_completion :: "'f services \<Rightarrow> pystr \<Rightarrow> int \<Rightarrow> py_exc + pystr" where
  "try_completion svc prompt max_answer_tokens =
     (case completions_create svc COMPLETION_MODEL_NAME prompt max_answer_tokens of
        Inl e \<Rightarrow> Inl e
      | Inr choices \<Rightarrow> (case choices of [] \<Rightarrow> Inl index_error | c # _ \<Rightarrow> Inr c))"

text \<open>
  \<open>answer_question\<close>. The second argument and the second component of the result are the
  lines printed so far: \<open>print(e)\<close> adds \<open>str(e)\<close>. The first component is the pair
  returned, or the exception that leaves the function.
\<close>

definition answer_question ::
  "'f services \<Rightarrow> pystr list \<Rightarrow> pystr \<Rightarrow> 'f row list \<Rightarrow> int \<Rightarrow> int
     \<Rightarrow> (py_exc + pystr \<times> pystr) \<times> pystr list" where
  "answer_question svc printed question df max_prompt_tokens max_answer_tokens =
     (case create_prompt svc question df max_prompt_tokens of
        Inl e \<Rightarrow> (Inl e, printed)
      | Inr prompt \<Rightarrow>
          (case try_completion svc prompt max_answer_tokens of
             Inr text \<Rightarrow> (Inr (text, prompt), printed)
           | Inl (Exception m) \<Rightarrow> (Inr ([], prompt), printed @ [m])
           | Inl (Interrupt m) \<Rightarrow> (Inl (Interrupt m), printed)))"

section \<open>Stand-ins for the examples\<close>

text \<open>
  Concrete collaborators at which the theorems below are instantiated. The parser accepts
  exactly the shape \<open>dddd-dd-dd\<close>; the tokenizer makes one token of every code point; the
  embedding has one coordinate, every distance is 0 and the sort leaves the rows as they
  are; the completion service always fails.
\<close>

definition is_digit :: "nat \<Rightarrow> bool" where
  "is_digit c = (48 \<le> c \<and> c \<le> 57)"

fun parse_iso :: "pystr \<Rightarrow> bool" where
  "parse_iso [y1, y2, y3, y4, h1, m1, m2, h2, d1, d2] =
     (list_all is_digit [y1, y2, y3, y4, m1, m2, d1, d2] \<and> h1 = 45 \<and> h2 = 45)"
| "parse_iso _ = False"

definition stub_services :: "int services" where
  "stub_services =
     \<lparr> encode = (\<lambda>s. s),
       embeddings_create = (\<lambda>texts model. Inr (map (\<lambda>t. [1]) texts)),
       completions_create = (\<lambda>model prompt n. Inl (Exception (codepoints ''timeout''))),
       cosine = (\<lambda>u v. Inr 0),
       cityblock = (\<lambda>u v. Inr 0),
       euclidean = (\<lambda>u v. Inr 0),
       chebyshev = (\<lambda>u v. Inr 0),
       sort_values = (\<lambda>rows. rows) \<rparr>"

text \<open>A row of the frame with the given text.\<close>

definition stub_row :: "string \<Rightarrow> int row" where
  "stub_row s = \<lparr> row_text = codepoints s, row_embeddings = [1] \<rparr>"

text \<open>\<open>dashed a b\<close> is the text \<open>a\<close>, the separator string, \<open>b\<close>.\<close>

definition dashed :: "string \<Rightarrow> string \<Rightarrow> pystr" where
  "dashed a b = codepoints a @ date_sep @ codepoints b"



text \<open>The same collaborators with a completion service that answers.\<close>

definition answering_services :: "int services" where
  "answering_services =
     stub_services \<lparr> completions_create := (\<lambda>model prompt n. Inr [codepoints '' GPT-4'']) \<rparr>"

section \<open>Facts about the text operations\<close>

lemma length_codepoints [simp]: "length (codepoints s) = length s"
  by (simp add: codepoints_def)

lemma split_on_nonempty: "split_on sep s \<noteq> []"
  by (induction s) (auto split: list.splits)

text \<open>The first field of a split is the text before the first separator.\<close>

lemma hd_split_on: "hd (split_on sep s) = takeWhile (\<lambda>c. c \<noteq> sep) s"
  using split_on_nonempty [of sep]
  by (induction s) (auto split: list.splits)

lemma strip_decomp:
  "\<exists>w1 w2. s = w1 @ strip s @ w2 \<and> list_all is_space w1 \<and> list_all is_space w2"
proof -
  let ?r = "dropWhile is_space s"
  have 1: "s = takeWhile is_space s @ ?r" by simp
  have "rev (takeWhile is_space (rev ?r) @ dropWhile is_space (rev ?r)) = ?r"
    by (simp only: takeWhile_dropWhile_id rev_rev_ident)
  then have 2: "?r = strip s @ rev (takeWhile is_space (rev ?r))"
    by (simp only: rev_append strip_def)
  have 3: "list_all is_space (takeWhile is_space s)"
    by (simp add: list_all_iff) (meson set_takeWhileD)
  have 4: "list_all is_space (rev (takeWhile is_space (rev ?r)))"
    by (simp add: list_all_iff) (meson set_takeWhileD)
  from 1 2 have "s = takeWhile is_space s @ strip s @ rev (takeWhile is_space (rev ?r))"
    by metis
  with 3 4 show ?thesis by blast
qed

lemma set_strip: "set (strip s) \<subseteq> set s"
  unfolding strip_def by (auto dest!: set_dropWhileD)

lemma last_dropWhile_nonempty: "dropWhile P xs \<noteq> [] \<Longrightarrow> last (dropWhile P xs) = last xs"
  by (induction xs) (auto split: if_splits)

text \<open>A stripped text is empty or has no white space at either end.\<close>

lemma strip_ends:
  "strip s = [] \<or> (\<not> is_space (hd (strip s)) \<and> \<not> is_space (last (strip s)))"
proof (cases "strip s = []")
  case True
  then show ?thesis by simp
next
  case False
  let ?r = "dropWhile is_space s"
  let ?q = "dropWhile is_space (rev ?r)"
  from False have q: "?q \<noteq> []" by (simp add: strip_def)
  have r: "?r \<noteq> []"
  proof
    assume e: "?r = []"
    have "?q = []" unfolding e by simp
    with q show False by contradiction
  qed
  have "last (strip s) = hd ?q" using q by (simp add: strip_def last_rev)
  moreover have "\<not> is_space (hd ?q)" using q by (rule hd_dropWhile)
  moreover have "hd (strip s) = last ?q" using q by (simp add: strip_def hd_rev)
  moreover have "last ?q = last (rev ?r)" using q by (rule last_dropWhile_nonempty)
  moreover have "last (rev ?r) = hd ?r" using r by (simp add: last_rev)
  moreover have "\<not> is_space (hd ?r)" using r by (rule hd_dropWhile)
  ultimately show ?thesis by simp
qed

lemma strip_append_space:
  assumes "d = [] \<or> (\<not> is_space (hd d) \<and> \<not> is_space (last d))"
  shows "strip (d @ [32]) = d"
proof (cases "d = []")
  case True
  then show ?thesis by (simp add: strip_def is_space_def)
next
  case False
  with assms have h: "\<not> is_space (hd d)" and l: "\<not> is_space (last d)" by auto
  from False h have 1: "dropWhile is_space (d @ [32]) = d @ [32]"
    by (simp add: dropWhile_eq_self_iff)
  from False l have 2: "dropWhile is_space (rev d) = rev d"
    by (simp add: dropWhile_eq_self_iff hd_rev)
  show ?thesis by (simp add: strip_def 1 2 is_space_def)
qed

section \<open>The date carry-forward\<close>

lemma is_date_cases:
  "is_date parse t =
     (if parse (strip (takeWhile (\<lambda>c. c \<noteq> en_dash) t))
      then (True, Some (strip (takeWhile (\<lambda>c. c \<noteq> en_dash) t)))
      else (False, None))"
  by (simp add: is_date_def hd_split_on Let_def)

lemma carry_forward_length [simp]: "length (carry_forward parse True cur rows) = length rows"
  by (induction rows arbitrary: cur) (auto simp: Let_def split: prod.splits)

lemma carry_forward_undated_run:
  "list_all (\<lambda>t. \<not> fst (is_date parse t)) mid \<Longrightarrow> \<not> fst (is_date parse l) \<Longrightarrow>
   carry_forward parse True (Some d) (mid @ l # post) ! length mid = d @ date_sep @ l"
  by (induction mid) (auto simp: Let_def split: prod.splits)

lemma carry_forward_after_date:
  assumes "is_date parse dl = (True, Some d)"
    and "list_all (\<lambda>t. \<not> fst (is_date parse t)) mid" and "\<not> fst (is_date parse l)"
  shows "carry_forward parse True cur (dl # mid @ l # post) ! Suc (length mid) = d @ date_sep @ l"
  using assms by (simp add: carry_forward_undated_run)

text \<open>The rows before a position only matter through the date they leave behind.\<close>

lemma carry_forward_skip:
  "carry_forward parse True cur (pre @ rest) ! (length pre + n) =
   carry_forward parse True
     (fold (\<lambda>t c. if fst (is_date parse t) then snd (is_date parse t) else c) pre cur)
     rest ! n"
  by (induction pre arbitrary: cur) (auto simp: Let_def split: prod.splits)

lemma carry_forward_most_recent:
  assumes "is_date parse dl = (True, Some d)"
    and "list_all (\<lambda>t. \<not> fst (is_date parse t)) mid" and "\<not> fst (is_date parse l)"
  shows "carry_forward parse True cur (pre @ dl # mid @ l # post) ! (length pre + Suc (length mid))
         = d @ date_sep @ l"
  unfolding carry_forward_skip using assms by (rule carry_forward_after_date)

text \<open>Without the write-back the loop leaves the column as it was.\<close>

lemma carry_forward_no_write_back: "carry_forward parse False cur rows = rows"
  by (induction rows arbitrary: cur) (auto simp: Let_def split: prod.splits)

lemma preprocess_no_write_back: "preprocess parse False lines = keep_dated (clean_lines lines)"
  by (simp add: preprocess_def carry_forward_no_write_back)

text \<open>What a successful \<open>is_date\<close> says about the date it returns.\<close>

lemma is_date_date:
  assumes "is_date parse t = (True, Some d)"
  shows "parse d" and "en_dash \<notin> set d" and "strip (d @ [32]) = d"
    and "d = strip (takeWhile (\<lambda>c. c \<noteq> en_dash) t)"
proof -
  let ?x = "takeWhile (\<lambda>c. c \<noteq> en_dash) t"
  from assms show d: "d = strip ?x" and "parse d"
    by (auto simp: is_date_cases split: if_splits)
  have "en_dash \<notin> set ?x" by (auto dest: set_takeWhileD)
  with set_strip [of ?x] d show "en_dash \<notin> set d" by auto
  from strip_ends [of ?x] d show "strip (d @ [32]) = d"
    by (simp add: strip_append_space)
qed

lemma dated_row_shape:
  assumes "is_date parse t = (True, Some d)" and "en_dash \<in> set t"
  shows "\<exists>w1 w2 rest. t = w1 @ d @ w2 @ en_dash # rest
           \<and> list_all is_space w1 \<and> list_all is_space w2"
proof -
  let ?x = "takeWhile (\<lambda>c. c \<noteq> en_dash) t"
  from assms(2) have "dropWhile (\<lambda>c. c \<noteq> en_dash) t \<noteq> []"
    by simp
  then obtain rest where r: "dropWhile (\<lambda>c. c \<noteq> en_dash) t = en_dash # rest"
    by (metis (mono_tags, lifting) hd_dropWhile list.exhaust_sel)
  have t: "t = ?x @ en_dash # rest" using r by (metis takeWhile_dropWhile_id)
  from is_date_date(4) [OF assms(1)] have d: "d = strip ?x" .
  from strip_decomp [of ?x] d obtain w1 w2 where
    "?x = w1 @ d @ w2" "list_all is_space w1" "list_all is_space w2" by auto
  with t have "t = w1 @ d @ w2 @ en_dash # rest" by simp
  then show ?thesis using \<open>list_all is_space w1\<close> \<open>list_all is_space w2\<close> by blast
qed

lemma prefixed_row_is_date:
  assumes "parse d" and "en_dash \<notin> set d" and "strip (d @ [32]) = d"
  shows "is_date parse (d @ date_sep @ text) = (True, Some d)"
proof -
  have "takeWhile (\<lambda>c. c \<noteq> en_dash) (d @ date_sep @ text) = d @ [32]"
    using assms(2) by (simp add: date_sep_def takeWhile_append en_dash_def)
  then show ?thesis using assms by (simp add: is_date_cases)
qed

lemma carry_forward_tagged:
  assumes "parse d" and "en_dash \<notin> set d" and "strip (d @ [32]) = d"
    and "t \<in> set (carry_forward parse True (Some d) rows)" and "en_dash \<in> set t"
  shows "\<exists>d' w1 w2 rest. is_date parse t = (True, Some d') \<and> t = w1 @ d' @ w2 @ en_dash # rest
           \<and> list_all is_space w1 \<and> list_all is_space w2"
  using assms
proof (induction rows arbitrary: d)
  case Nil
  then show ?case by simp
next
  case (Cons x rows)
  show ?case
  proof (cases "fst (is_date parse x)")
    case True
    then obtain d' where dt: "is_date parse x = (True, Some d')"
      by (auto simp: is_date_cases split: if_splits)
    from Cons.prems(4) dt have "t = x \<or> t \<in> set (carry_forward parse True (Some d') rows)"
      by (simp add: Let_def)
    then show ?thesis
    proof
      assume "t = x"
      with dt Cons.prems(5) dated_row_shape [of parse x d'] show ?thesis by blast
    next
      assume "t \<in> set (carry_forward parse True (Some d') rows)"
      with Cons.IH [of d'] is_date_date(1-3) [OF dt] Cons.prems(5) show ?thesis by blast
    qed
  next
    case False
    then have nd: "is_date parse x = (False, None)"
      by (auto simp: is_date_cases split: if_splits)
    from Cons.prems(4) nd
    have "t = d @ date_sep @ x \<or> t \<in> set (carry_forward parse True (Some d) rows)"
      by (simp add: Let_def)
    then show ?thesis
    proof
      assume e: "t = d @ date_sep @ x"
      have "is_date parse t = (True, Some d)"
        unfolding e using Cons.prems(1-3) by (rule prefixed_row_is_date)
      moreover have "t = [] @ d @ [32] @ en_dash # (32 # x)"
        by (simp add: e date_sep_def)
      moreover have "list_all is_space []" and "list_all is_space [32]"
        by (simp_all add: is_space_def)
      ultimately show ?thesis by blast
    next
      assume "t \<in> set (carry_forward parse True (Some d) rows)"
      with Cons.IH [of d] Cons.prems show ?thesis by blast
    qed
  qed
qed

text \<open>
  From the start of the scan: a row kept is an undated line ahead of the first dated line,
  or it carries its date.
\<close>

lemma carry_forward_none_tagged:
  assumes "t \<in> set (carry_forward parse True None rows)" and "en_dash \<in> set t"
  shows "t \<in> set (takeWhile (\<lambda>x. \<not> fst (is_date parse x)) rows)
         \<or> (\<exists>d w1 w2 rest. is_date parse t = (True, Some d) \<and> t = w1 @ d @ w2 @ en_dash # rest
               \<and> list_all is_space w1 \<and> list_all is_space w2)"
  using assms
proof (induction rows)
  case Nil
  then show ?case by simp
next
  case (Cons x rows)
  show ?case
  proof (cases "fst (is_date parse x)")
    case True
    then obtain d where dt: "is_date parse x = (True, Some d)"
      by (auto simp: is_date_cases split: if_splits)
    from Cons.prems(1) dt have "t = x \<or> t \<in> set (carry_forward parse True (Some d) rows)"
      by (simp add: Let_def)
    then show ?thesis
    proof
      assume "t = x"
      with dt Cons.prems(2) dated_row_shape [of parse x d] show ?thesis by blast
    next
      assume "t \<in> set (carry_forward parse True (Some d) rows)"
      with carry_forward_tagged [of parse d t rows] is_date_date(1-3) [OF dt] Cons.prems(2)
      show ?thesis by blast
    qed
  next
    case False
    then have nd: "is_date parse x = (False, None)"
      by (auto simp: is_date_cases split: if_splits)
    from Cons.prems(1) nd have "t = x \<or> t \<in> set (carry_forward parse True None rows)"
      by (simp add: Let_def)
    then show ?thesis
    proof
      assume "t = x"
      with False show ?thesis by simp
    next
      assume "t \<in> set (carry_forward parse True None rows)"
      with Cons.IH Cons.prems(2) False show ?thesis by auto
    qed
  qed
qed

section \<open>The context loop\<close>

text \<open>The context gathered so far is a prefix of the result.\<close>

lemma context_loop_acc:
  "context_loop svc m cur ctx texts = ctx @ context_loop svc m cur [] texts"
proof (induction texts arbitrary: cur ctx)
  case Nil
  then show ?case by simp
next
  case (Cons t texts)
  from Cons [of "cur + count_tokens svc t" "ctx @ [t]"] Cons [of "cur + count_tokens svc t" "[t]"]
  show ?case by (simp add: Let_def)
qed

lemma context_loop_Cons:
  "context_loop svc m cur [] (t # texts) =
     (if int (cur + count_tokens svc t) < m
      then t # context_loop svc m (cur + count_tokens svc t) [] texts else [])"
  using context_loop_acc [of svc m "cur + count_tokens svc t" "[t]" texts]
  by (simp add: Let_def)


lemma context_loop_budget:
  "int cur < m \<Longrightarrow>
   int (cur + sum_list (map (count_tokens svc) (context_loop svc m cur [] texts))) < m"
proof (induction texts arbitrary: cur)
  case Nil
  then show ?case by simp
next
  case (Cons t texts)
  show ?case
  proof (cases "int (cur + count_tokens svc t) < m")
    case True
    from Cons.IH [OF True] True show ?thesis by (simp add: context_loop_Cons add.assoc del: context_loop.simps)
  next
    case False
    with Cons.prems show ?thesis by (simp add: context_loop_Cons del: context_loop.simps)
  qed
qed

lemma context_loop_no_room:
  "m \<le> int cur \<Longrightarrow> context_loop svc m cur [] texts = []"
  by (cases texts) (simp_all add: context_loop_Cons del: context_loop.simps(2))


section \<open>The stand-ins evaluated\<close>

lemma length_prompt_template: "length prompt_template = 169"
  by (simp add: prompt_template_def template_head_def template_mid_def template_tail_def)

lemma stub_count_tokens: "count_tokens stub_services s = length s"
  by (simp add: count_tokens_def stub_services_def)

lemma stub_rows:
  "get_rows_by_relevance stub_services question df = Inr (zip df (map (\<lambda>r. 0) df))"
proof -
  have "distance_metrics stub_services (codepoints ''cosine'') = Some (\<lambda>u v. Inr 0)"
    by (simp add: distance_metrics_def stub_services_def)
  moreover have "comprehension (\<lambda>v. Inr (0::int)) xs = (Inr (map (\<lambda>r. 0) xs) :: py_exc + int list)"
    for xs :: "int list list"
    by (induction xs) simp_all
  ultimately have "distances_from_embeddings stub_services q es (codepoints ''cosine'')
                     = Inr (map (\<lambda>r. 0) es)" for q es
    by (simp add: distances_from_embeddings_def)
  then show ?thesis
    by (simp add: get_rows_by_relevance_def get_embedding_def stub_services_def comp_def)
qed

lemma text_values_zip: "text_values (zip df (map f df)) = map row_text df"
  by (induction df) (simp_all add: text_values_def)

lemma stub_context:
  "create_prompt_context stub_services question df m =
     Inr (context_loop stub_services m (169 + length question) [] (map row_text df))"
  by (simp add: create_prompt_context_def stub_rows stub_count_tokens length_prompt_template
      text_values_zip Let_def)

lemma create_prompt_context_eq:
  "create_prompt_context svc question df m = Inr context \<Longrightarrow>
   \<exists>rows. get_rows_by_relevance svc question df = Inr rows
     \<and> context = context_loop svc m (count_tokens svc prompt_template + count_tokens svc question)
                   [] (text_values rows)"
  by (auto simp: create_prompt_context_def Let_def split: sum.splits)

lemma stub_prompt:
  "create_prompt stub_services (codepoints ''q'') [stub_row ''a''] 1500
     = Inr (format_prompt (codepoints ''a'') (codepoints ''q''))"
  by (simp add: create_prompt_def stub_context stub_count_tokens stub_row_def)

text \<open>\<open>create_prompt\<close> never calls the completion service.\<close>

lemma context_loop_completions:
  "context_loop (svc\<lparr>completions_create := c\<rparr>) m cur ctx texts = context_loop svc m cur ctx texts"
  by (induction texts arbitrary: cur ctx) (simp_all add: count_tokens_def Let_def)

lemma get_rows_by_relevance_completions:
  "get_rows_by_relevance (svc\<lparr>completions_create := c\<rparr>) question df
     = get_rows_by_relevance svc question df"
proof -
  have "distances_from_embeddings (svc\<lparr>completions_create := c\<rparr>) q es name
          = distances_from_embeddings svc q es name" for q es name
    by (simp add: distances_from_embeddings_def distance_metrics_def)
  then show ?thesis
    by (simp add: get_rows_by_relevance_def get_embedding_def split: sum.splits)
qed

lemma create_prompt_completions:
  "create_prompt (svc\<lparr>completions_create := c\<rparr>) question df m = create_prompt svc question df m"
  by (simp add: create_prompt_def create_prompt_context_def get_rows_by_relevance_completions
      count_tokens_def context_loop_completions split: sum.splits)

lemmas text_defs = preprocess_def keep_dated_def clean_lines_def startswith_def dashed_def
  codepoints_def date_sep_def en_dash_def is_date_cases strip_def is_space_def

section \<open>The claims\<close>

subsection \<open>C1: the token budget\<close>

text \<open>
  Claim C1, as stated, fails. With a limit of 100 tokens and a template and question that
  already take 170, \<open>create_prompt\<close> selects no context and the total, 170, is not below
  the limit. With a limit of 173 it selects the two texts \<open>a\<close> and \<open>b\<close>, which the
  loop counts as 1 token each; the joined block \<open>a\<close>, separator, \<open>b\<close> has 9 tokens, the
  separator being counted by nobody, and the total 179 is not below 173.
\<close>

theorem budget_counterexample:
  "create_prompt_context stub_services (codepoints ''q'') [stub_row ''abc''] 100 = Inr []
   \<and> \<not> int (count_tokens stub_services prompt_template
             + count_tokens stub_services (codepoints ''q'')
             + count_tokens stub_services (join context_separator [])) < 100
   \<and> create_prompt_context stub_services (codepoints ''q'') [stub_row ''a'', stub_row ''b''] 173
       = Inr [codepoints ''a'', codepoints ''b'']
   \<and> \<not> int (count_tokens stub_services prompt_template
             + count_tokens stub_services (codepoints ''q'')
             + count_tokens stub_services
                 (join context_separator [codepoints ''a'', codepoints ''b''])) < 173"
  by (simp add: stub_context stub_count_tokens length_prompt_template stub_row_def
      context_separator_def)

text \<open>
  Claim C1, amended. Whenever \<open>create_prompt\<close> assembles a context: if the limit
  \<open>max_token_count\<close> is greater than the tokens of the template plus those of the question,
  then these plus the tokens of the selected texts, each text counted on its own as the loop
  counts it, are fewer than \<open>max_token_count\<close>; and if the limit is not greater than the
  tokens of the template plus those of the question, the selected context is empty.
\<close>

theorem budget_respected:
  assumes "create_prompt_context svc question df max_token_count = Inr context"
  shows "(int (count_tokens svc prompt_template + count_tokens svc question) < max_token_count
          \<longrightarrow> int (count_tokens svc prompt_template + count_tokens svc question
                   + sum_list (map (count_tokens svc) context)) < max_token_count)
       \<and> (max_token_count \<le> int (count_tokens svc prompt_template + count_tokens svc question)
          \<longrightarrow> context = [])"
proof -
  from create_prompt_context_eq [OF assms] obtain rows where
    "get_rows_by_relevance svc question df = Inr rows" and
    c: "context = context_loop svc max_token_count
          (count_tokens svc prompt_template + count_tokens svc question) [] (text_values rows)"
    by blast
  show ?thesis unfolding c
    using context_loop_budget context_loop_no_room by blast
qed

theorem budget_respected_witness:
  "create_prompt_context stub_services (codepoints ''q'') [stub_row ''a'', stub_row ''b''] 173
     = Inr [codepoints ''a'', codepoints ''b'']
   \<and> int (count_tokens stub_services prompt_template + count_tokens stub_services (codepoints ''q''))
       < 173
   \<and> int (count_tokens stub_services prompt_template + count_tokens stub_services (codepoints ''q'')
          + sum_list (map (count_tokens stub_services) [codepoints ''a'', codepoints ''b''])) < 173
   \<and> create_prompt_context stub_services (codepoints ''q'') [stub_row ''abc''] 100 = Inr []
   \<and> 100 \<le> int (count_tokens stub_services prompt_template
                  + count_tokens stub_services (codepoints ''q''))"
proof -
  have h1: "create_prompt_context stub_services (codepoints ''q'') [stub_row ''a'', stub_row ''b''] 173
     = Inr [codepoints ''a'', codepoints ''b'']"
    by (simp add: stub_context stub_count_tokens stub_row_def)
  have h2: "int (count_tokens stub_services prompt_template
                 + count_tokens stub_services (codepoints ''q'')) < 173"
    by (simp add: stub_count_tokens length_prompt_template)
  have h3: "create_prompt_context stub_services (codepoints ''q'') [stub_row ''abc''] 100 = Inr []"
    by (simp add: stub_context stub_count_tokens stub_row_def)
  have h4: "100 \<le> int (count_tokens stub_services prompt_template
                  + count_tokens stub_services (codepoints ''q''))"
    by (simp add: stub_count_tokens length_prompt_template)
  from budget_respected [OF h1] budget_respected [OF h3] h1 h2 h3 h4 show ?thesis by blast
qed

subsection \<open>C2: first fit, then stop\<close>






subsection \<open>C3: the date carry-forward\<close>

text \<open>
  When the assignment reaches the frame, the scan does what the claim says: a line that
  does not parse as dated and comes after a dated line, with only undated lines in
  between, becomes the date of that dated line, the separator string, and the line
  itself; and for a parser that accepts \<open>2023-01-01\<close> and \<open>2023-02-01\<close> and rejects \<open>B\<close>,
  \<open>C\<close> and \<open>E\<close>, the five lines of the example give the five fragments of the example.
\<close>

lemma carry_forward_written_back:
  "(is_date parse dl = (True, Some d) \<and> list_all (\<lambda>t. \<not> fst (is_date parse t)) (mid @ [l])
      \<longrightarrow> carry_forward parse True None (pre @ dl # mid @ l # post) ! (length pre + Suc (length mid))
            = d @ date_sep @ l)
   \<and> (parse (codepoints ''2023-01-01'') \<and> parse (codepoints ''2023-02-01'')
       \<and> \<not> parse (codepoints ''B'') \<and> \<not> parse (codepoints ''C'') \<and> \<not> parse (codepoints ''E'')
      \<longrightarrow> preprocess parse True
            [dashed ''2023-01-01'' ''A'', codepoints ''B'', codepoints ''C'',
             dashed ''2023-02-01'' ''D'', codepoints ''E'']
          = [dashed ''2023-01-01'' ''A'', dashed ''2023-01-01'' ''B'', dashed ''2023-01-01'' ''C'',
             dashed ''2023-02-01'' ''D'', dashed ''2023-02-01'' ''E''])"
proof (intro conjI impI)
  assume "is_date parse dl = (True, Some d) \<and> list_all (\<lambda>t. \<not> fst (is_date parse t)) (mid @ [l])"
  then have 1: "is_date parse dl = (True, Some d)"
    and 2: "list_all (\<lambda>t. \<not> fst (is_date parse t)) mid" and 3: "\<not> fst (is_date parse l)"
    by simp_all
  show "carry_forward parse True None (pre @ dl # mid @ l # post) ! (length pre + Suc (length mid))
            = d @ date_sep @ l"
    by (rule carry_forward_most_recent [OF 1 2 3])
next
  assume "parse (codepoints ''2023-01-01'') \<and> parse (codepoints ''2023-02-01'')
       \<and> \<not> parse (codepoints ''B'') \<and> \<not> parse (codepoints ''C'') \<and> \<not> parse (codepoints ''E'')"
  then show "preprocess parse True
            [dashed ''2023-01-01'' ''A'', codepoints ''B'', codepoints ''C'',
             dashed ''2023-02-01'' ''D'', codepoints ''E'']
          = [dashed ''2023-01-01'' ''A'', dashed ''2023-01-01'' ''B'', dashed ''2023-01-01'' ''C'',
             dashed ''2023-02-01'' ''D'', dashed ''2023-02-01'' ''E'']"
    by (simp add: text_defs)
qed


text \<open>
  Claim C3. The claim asks for five fragments from the example's five lines. The loop
  assigns to the Series that \<open>iterrows\<close> yields; when pandas does not pass that write on
  to the frame, the column is unchanged, the lines \<open>B\<close>, \<open>C\<close> and \<open>E\<close> never get a date and
  are filtered out, and the code returns two fragments. When the write is passed on it
  returns the five.
\<close>

theorem date_carry_forward_lost:
  "preprocess parse_iso False
     [dashed ''2023-01-01'' ''A'', codepoints ''B'', codepoints ''C'',
      dashed ''2023-02-01'' ''D'', codepoints ''E'']
     = [dashed ''2023-01-01'' ''A'', dashed ''2023-02-01'' ''D'']
   \<and> preprocess parse_iso True
       [dashed ''2023-01-01'' ''A'', codepoints ''B'', codepoints ''C'',
        dashed ''2023-02-01'' ''D'', codepoints ''E'']
     = [dashed ''2023-01-01'' ''A'', dashed ''2023-01-01'' ''B'', dashed ''2023-01-01'' ''C'',
        dashed ''2023-02-01'' ''D'', dashed ''2023-02-01'' ''E'']"
  by (simp add: text_defs is_digit_def)

subsection \<open>C4: the date tag of the rows kept\<close>

text \<open>
  When the assignment reaches the frame, every row kept, other than the undated lines
  ahead of the first dated line, has the date tag \<open>is_date\<close> finds in it, and its text is:
  white space or nothing, the date tag, white space or nothing, the en dash, the rest.
\<close>

lemma kept_rows_tagged:
  assumes "t \<in> set (preprocess parse True lines)"
    and "t \<notin> set (takeWhile (\<lambda>x. \<not> fst (is_date parse x)) (clean_lines lines))"
  shows "\<exists>d w1 w2 rest. is_date parse t = (True, Some d) \<and> t = w1 @ d @ w2 @ en_dash # rest
           \<and> list_all is_space w1 \<and> list_all is_space w2"
proof -
  from assms(1) have "en_dash \<in> set t"
    and "t \<in> set (carry_forward parse True None (clean_lines lines))"
    by (simp_all add: preprocess_def keep_dated_def)
  with carry_forward_none_tagged [of t parse "clean_lines lines"] assms(2)
  show ?thesis by blast
qed


text \<open>
  Claim C4. The claim asks for a date tag in front of every row kept. The line
  \<open>foo - bar\<close> (with the en dash), ahead of any dated line, is kept although \<open>is_date\<close>
  finds no date in it, whether or not the assignment reaches the frame: the last filter
  looks for the en dash, not for a date. When the assignment does not reach the frame, the
  same line is kept undated after a dated line too.
\<close>

theorem undated_row_kept:
  "is_date parse_iso (dashed ''foo'' ''bar'') = (False, None)
   \<and> preprocess parse_iso True [dashed ''foo'' ''bar''] = [dashed ''foo'' ''bar'']
   \<and> preprocess parse_iso False [dashed ''foo'' ''bar''] = [dashed ''foo'' ''bar'']
   \<and> preprocess parse_iso False [dashed ''2023-01-01'' ''A'', dashed ''foo'' ''bar'']
       = [dashed ''2023-01-01'' ''A'', dashed ''foo'' ''bar'']"
  by (simp add: text_defs is_digit_def)

subsection \<open>C9: a failing completion\<close>

text \<open>
  Claim C9. When the completion call raises an \<open>Exception\<close>, \<open>answer_question\<close> does not
  raise: it returns the empty answer with the prompt it had passed to the call, and it
  prints the exception.
\<close>

theorem completion_failure_swallowed:
  assumes "create_prompt svc question df max_prompt_tokens = Inr prompt"
    and "completions_create svc COMPLETION_MODEL_NAME prompt max_answer_tokens
           = Inl (Exception m)"
  shows "answer_question svc printed question df max_prompt_tokens max_answer_tokens
           = (Inr ([], prompt), printed @ [m])"
  using assms by (simp add: answer_question_def try_completion_def)

theorem completion_failure_swallowed_witness:
  "create_prompt stub_services (codepoints ''q'') [stub_row ''a''] 1500
     = Inr (format_prompt (codepoints ''a'') (codepoints ''q''))
   \<and> completions_create stub_services COMPLETION_MODEL_NAME
        (format_prompt (codepoints ''a'') (codepoints ''q'')) 500
       = Inl (Exception (codepoints ''timeout''))
   \<and> answer_question stub_services [] (codepoints ''q'') [stub_row ''a''] 1500 500
       = (Inr ([], format_prompt (codepoints ''a'') (codepoints ''q'')), [codepoints ''timeout''])"
proof -
  have h2: "completions_create stub_services COMPLETION_MODEL_NAME
        (format_prompt (codepoints ''a'') (codepoints ''q'')) 500
       = Inl (Exception (codepoints ''timeout''))"
    by (simp add: stub_services_def)
  from completion_failure_swallowed [OF stub_prompt h2, of "[]"] stub_prompt h2
  show ?thesis by simp
qed

subsection \<open>C10: the prompt returned\<close>

text \<open>
  Claim C10. Whenever \<open>answer_question\<close> returns a pair, its second component is the prompt
  that \<open>create_prompt(question, df, max_prompt_tokens)\<close> returned; and when \<open>create_prompt\<close>
  returns a prompt, \<open>answer_question\<close> returns that prompt both with the answer of a
  completion that succeeds and with the empty answer of one that fails.
\<close>

theorem answer_question_prompt:
  "(fst (answer_question svc printed question df max_prompt_tokens max_answer_tokens)
      = Inr (answer, p)
    \<longrightarrow> create_prompt svc question df max_prompt_tokens = Inr p)
   \<and> (create_prompt svc question df max_prompt_tokens = Inr p
       \<and> try_completion svc p max_answer_tokens = Inr text
    \<longrightarrow> fst (answer_question svc printed question df max_prompt_tokens max_answer_tokens)
          = Inr (text, p))
   \<and> (create_prompt svc question df max_prompt_tokens = Inr p
       \<and> try_completion svc p max_answer_tokens = Inl (Exception m)
    \<longrightarrow> fst (answer_question svc printed question df max_prompt_tokens max_answer_tokens)
          = Inr ([], p))"
  by (auto simp: answer_question_def split: sum.splits py_exc.splits)

theorem answer_question_prompt_witness:
  "create_prompt answering_services (codepoints ''q'') [stub_row ''a''] 1500
     = Inr (format_prompt (codepoints ''a'') (codepoints ''q''))
   \<and> try_completion answering_services (format_prompt (codepoints ''a'') (codepoints ''q'')) 500
       = Inr (codepoints '' GPT-4'')
   \<and> fst (answer_question answering_services [] (codepoints ''q'') [stub_row ''a''] 1500 500)
       = Inr (codepoints '' GPT-4'', format_prompt (codepoints ''a'') (codepoints ''q''))
   \<and> create_prompt stub_services (codepoints ''q'') [stub_row ''a''] 1500
       = Inr (format_prompt (codepoints ''a'') (codepoints ''q''))
   \<and> try_completion stub_services (format_prompt (codepoints ''a'') (codepoints ''q'')) 500
       = Inl (Exception (codepoints ''timeout''))
   \<and> fst (answer_question stub_services [] (codepoints ''q'') [stub_row ''a''] 1500 500)
       = Inr ([], format_prompt (codepoints ''a'') (codepoints ''q''))"
proof -
  let ?q = "codepoints ''q''" and ?p = "format_prompt (codepoints ''a'') (codepoints ''q'')"
  have a1: "create_prompt answering_services ?q [stub_row ''a''] 1500 = Inr ?p"
    by (simp add: answering_services_def create_prompt_completions stub_prompt)
  have a2: "try_completion answering_services ?p 500 = Inr (codepoints '' GPT-4'')"
    by (simp add: try_completion_def answering_services_def)
  have b2: "try_completion stub_services ?p 500 = Inl (Exception (codepoints ''timeout''))"
    by (simp add: try_completion_def stub_services_def)
  from answer_question_prompt [of answering_services "[]" ?q "[stub_row ''a'']" 1500 500
      "codepoints '' GPT-4''" ?p "codepoints '' GPT-4''"] a1 a2
  have a3: "fst (answer_question answering_services [] ?q [stub_row ''a''] 1500 500)
              = Inr (codepoints '' GPT-4'', ?p)"
    by blast
  from answer_question_prompt [of stub_services "[]" ?q "[stub_row ''a'']" 1500 500
      "[]" ?p _ "codepoints ''timeout''"] stub_prompt b2
  have b3: "fst (answer_question stub_services [] ?q [stub_row ''a''] 1500 500) = Inr ([], ?p)"
    by blast
  from a1 a2 a3 stub_prompt b2 b3 show ?thesis by blast
qed

end
